theory Spec2Isabelle
  imports Complex_Main "HOL-Library.Sublist"
begin

section \<open>TravelViz: badges, persistence, reminders, expenses and fallback coordinates\<close>

text \<open>
  A shallow embedding of the data-handling functions of \<^verbatim>\<open>app.py\<close>.
  Python's unbounded integers are \<^typ>\<open>int\<close>, \<^verbatim>\<open>None\<close> in an optional position is
  \<^const>\<open>None\<close>, an exception is the left summand of a result.
\<close>

subsection \<open>Badges\<close>

text \<open>
  \<^verbatim>\<open>get_user_badge\<close> scans the tier table by index. The scan keeps the triple
  (current badge, level index, next threshold) and stops at the first tier whose threshold
  exceeds the trip count (the \<^verbatim>\<open>break\<close>).
\<close>

definition tiers :: "(string \<times> int) list" where
  "tiers =
     [(''New Traveler'', 0),
      (''Explorer'', 1),
      (''Adventurer'', 3),
      (''Globetrotter'', 6),
      (''World Citizen'', 10)]"

function badge_scan ::
  "int \<Rightarrow> nat \<Rightarrow> string \<times> int \<times> int option \<Rightarrow> string \<times> int \<times> int option" where
  "badge_scan trip_count i st =
     (if i < length tiers then
        (case tiers ! i of (name, threshold) \<Rightarrow>
           if trip_count \<ge> threshold then
             badge_scan trip_count (i + 1)
               (name, int i,
                if i + 1 < length tiers then Some (snd (tiers ! (i + 1))) else None)
           else st)
      else st)"
  by pat_completeness auto
termination
  by (relation "measure (\<lambda>(n, i, st). length tiers - i)") auto

declare badge_scan.simps [simp del]

definition get_user_badge :: "int \<Rightarrow> string \<times> int \<times> int option" where
  "get_user_badge trip_count =
     badge_scan trip_count 0 (fst (tiers ! 0), 0, Some (snd (tiers ! 1)))"

subsection \<open>Strings\<close>

text \<open>
  A Python \<^verbatim>\<open>str\<close> is a list of \<^typ>\<open>char\<close>, one per code point; the model covers the code
  points 0 to 127. \<^verbatim>\<open>k in s\<close> on strings is the contiguous-sublist test \<^const>\<open>sublist\<close>.
  \<^verbatim>\<open>str.strip()\<close> removes the leading and trailing white space (tab, line feed, vertical tab,
  form feed, carriage return, the separators 28 to 31 and the space), \<^verbatim>\<open>str.lower()\<close> maps
  \<^verbatim>\<open>A\<close> to \<^verbatim>\<open>Z\<close> onto \<^verbatim>\<open>a\<close> to \<^verbatim>\<open>z\<close>.
\<close>

definition isspace :: "char \<Rightarrow> bool" where
  "isspace c = (let n = (of_char c :: nat) in (9 \<le> n \<and> n \<le> 13) \<or> (28 \<le> n \<and> n \<le> 32))"

definition strip :: "string \<Rightarrow> string" where
  "strip s = rev (dropWhile isspace (rev (dropWhile isspace s)))"

definition lower_char :: "char \<Rightarrow> char" where
  "lower_char c =
     (let n = (of_char c :: nat) in if 65 \<le> n \<and> n \<le> 90 then char_of (n + 32) else c)"

definition lower :: "string \<Rightarrow> string" where
  "lower s = map lower_char s"

subsection \<open>Fallback coordinates\<close>

text \<open>
  \<^verbatim>\<open>FALLBACK_CENTROIDS\<close> is a dict literal; iterating its items follows the order in which the
  literal lists them, so the table is an association list in that order. A coordinate literal
  is the rational its decimal notation denotes.
\<close>

type_synonym coords = "rat \<times> rat"

definition FALLBACK_CENTROIDS :: "(string \<times> coords) list" where
  "FALLBACK_CENTROIDS =
     [(''france'', (46.2, 2.2)),
      (''paris'', (48.85, 2.35)),
      (''india'', (20.59, 78.96)),
      (''usa'', (37.09, -95.71)),
      (''japan'', (36.20, 138.25)),
      (''tokyo'', (35.67, 139.65))]"

text \<open>The loop over the items: the first key contained in \<open>key\<close> returns its value.\<close>

fun centroid_scan :: "(string \<times> coords) list \<Rightarrow> string \<Rightarrow> coords option" where
  "centroid_scan [] key = None"
| "centroid_scan ((k, v) # items) key =
     (if sublist k key then Some v else centroid_scan items key)"

definition fallback_coords_for_destination :: "string \<Rightarrow> coords option" where
  "fallback_coords_for_destination dest =
     (let key = lower (strip dest) in centroid_scan FALLBACK_CENTROIDS key)"

subsection \<open>Values, dictionaries and exceptions\<close>

text \<open>
  The values \<^verbatim>\<open>json.load\<close> produces and \<^verbatim>\<open>json.dump\<close> accepts: \<^verbatim>\<open>None\<close>, booleans, integers,
  floats, strings, lists and dicts with string keys. A dict is an association list in
  insertion order. A float is the rational it denotes, or one of the three values that are
  not numbers of that kind; arithmetic on floats is exact in the model (rounding and overflow
  of the binary format are not represented).
\<close>

datatype pyfloat = Finite rat | PosInf | NegInf | NaN

datatype json =
    JNull
  | JBool bool
  | JInt int
  | JFloat pyfloat
  | JStr string
  | JArr "json list"
  | JObj "(string \<times> json) list"

datatype exn =
    JSONDecodeError
  | UnicodeDecodeError
  | AttributeError
  | TypeError
  | ValueError
  | OverflowError
  | KeyError

text \<open>\<^verbatim>\<open>d.get(k, default)\<close>, \<^verbatim>\<open>d.setdefault(k, v)\<close> (the dict after the call) and \<^verbatim>\<open>d[k] = v\<close>.\<close>

definition dict_get :: "(string \<times> json) list \<Rightarrow> string \<Rightarrow> json \<Rightarrow> json" where
  "dict_get d k dflt = (case map_of d k of None \<Rightarrow> dflt | Some v \<Rightarrow> v)"

definition setdefault :: "string \<Rightarrow> json \<Rightarrow> (string \<times> json) list \<Rightarrow> (string \<times> json) list" where
  "setdefault k v d = (case map_of d k of None \<Rightarrow> d @ [(k, v)] | Some _ \<Rightarrow> d)"

fun dict_set :: "string \<Rightarrow> json \<Rightarrow> (string \<times> json) list \<Rightarrow> (string \<times> json) list" where
  "dict_set k v [] = [(k, v)]"
| "dict_set k v ((k', v') # d) = (if k' = k then (k, v) # d else (k', v') # dict_set k v d)"

text \<open>
  \<^verbatim>\<open>for x in v\<close>: a list yields its elements, a dict its keys, a string its characters as
  one-character strings; any other value is not iterable.
\<close>

fun py_iter :: "json \<Rightarrow> exn + json list" where
  "py_iter (JArr xs) = Inr xs"
| "py_iter (JObj d) = Inr (map (\<lambda>(k, v). JStr k) d)"
| "py_iter (JStr s) = Inr (map (\<lambda>c. JStr [c]) s)"
| "py_iter v = Inl TypeError"

subsection \<open>Persistence\<close>

text \<open>
  A backing file is represented by what \<^verbatim>\<open>json.load\<close> does on it: the exception it raises
  (\<^const>\<open>JSONDecodeError\<close> for text that is not JSON, \<^const>\<open>UnicodeDecodeError\<close> for bytes that
  are not text in the default encoding) or the value it returns. \<^const>\<open>None\<close> is the file that
  does not exist. \<^verbatim>\<open>json.dump\<close> writes a file on which \<^verbatim>\<open>json.load\<close> returns the value dumped;
  the text in between is not represented.
\<close>

type_synonym backing_file = "exn + json"

record disk =
  USERS_FILE :: "backing_file option"
  TRIPS_FILE :: "backing_file option"

text \<open>The body of the loop of \<^verbatim>\<open>load_users\<close> for the value stored under one user.\<close>

definition upgrade_user :: "json \<Rightarrow> exn + json" where
  "upgrade_user v =
     (let v1 = (case v of
                  JStr pw \<Rightarrow>
                    JObj [(''password'', JStr pw),
                          (''profile_pic'', JNull),
                          (''role'', JStr ''user''),
                          (''bio'', JStr ''''),
                          (''favorite_destination'', JStr ''''),
                          (''goals'', JStr '''')]
                | _ \<Rightarrow> v)
      in case v1 of
           JObj r \<Rightarrow>
             Inr (JObj (setdefault ''goals'' (JStr '''')
                       (setdefault ''favorite_destination'' (JStr '''')
                       (setdefault ''bio'' (JStr '''')
                       (setdefault ''profile_pic'' JNull
                       (setdefault ''role'' (JStr ''user'') r))))))
         | _ \<Rightarrow> Inl AttributeError)"

fun load_users_loop :: "string list \<Rightarrow> (string \<times> json) list \<Rightarrow> exn + (string \<times> json) list" where
  "load_users_loop [] data = Inr data"
| "load_users_loop (user # users) data =
     (case map_of data user of
        None \<Rightarrow> Inl KeyError
      | Some v \<Rightarrow>
          (case upgrade_user v of
             Inl e \<Rightarrow> Inl e
           | Inr v' \<Rightarrow> load_users_loop users (dict_set user v' data)))"

definition load_users :: "disk \<Rightarrow> exn + json" where
  "load_users fs =
     (case USERS_FILE fs of
        None \<Rightarrow> Inr (JObj [])
      | Some (Inl e) \<Rightarrow> if e = JSONDecodeError then Inr (JObj []) else Inl e
      | Some (Inr data) \<Rightarrow>
          (case data of
             JObj d \<Rightarrow>
               (case load_users_loop (map fst d) d of
                  Inl e \<Rightarrow> Inl e
                | Inr d' \<Rightarrow> Inr (JObj d'))
           | _ \<Rightarrow> Inl AttributeError))"

definition save_users :: "json \<Rightarrow> disk \<Rightarrow> disk" where
  "save_users users fs = fs\<lparr>USERS_FILE := Some (Inr users)\<rparr>"

text \<open>The inner loop of \<^verbatim>\<open>load_trips\<close>: each trip gets its missing fields and is appended.\<close>

definition backfill_trip :: "json \<Rightarrow> exn + json" where
  "backfill_trip t =
     (case t of
        JObj r \<Rightarrow>
          Inr (JObj (setdefault ''lon'' JNull
                    (setdefault ''lat'' JNull
                    (setdefault ''checklist'' (JArr [])
                    (setdefault ''expenses'' (JArr [])
                    (setdefault ''notes'' (JStr '''')
                    (setdefault ''end_date'' (JStr '''')
                    (setdefault ''start_date'' (JStr '''')
                    (setdefault ''destination'' (JStr '''') r)))))))))
      | _ \<Rightarrow> Inl AttributeError)"

fun backfill_loop :: "json list \<Rightarrow> json list \<Rightarrow> exn + json list" where
  "backfill_loop [] new_trs = Inr new_trs"
| "backfill_loop (t # ts) new_trs =
     (case backfill_trip t of
        Inl e \<Rightarrow> Inl e
      | Inr t' \<Rightarrow> backfill_loop ts (new_trs @ [t']))"

fun load_trips_loop ::
  "(string \<times> json) list \<Rightarrow> (string \<times> json) list \<Rightarrow> exn + (string \<times> json) list" where
  "load_trips_loop [] data = Inr data"
| "load_trips_loop ((uname, trs) # items) data =
     (case py_iter trs of
        Inl e \<Rightarrow> Inl e
      | Inr ts \<Rightarrow>
          (case backfill_loop ts [] of
             Inl e \<Rightarrow> Inl e
           | Inr new_trs \<Rightarrow> load_trips_loop items (dict_set uname (JArr new_trs) data)))"

definition load_trips :: "disk \<Rightarrow> exn + json" where
  "load_trips fs =
     (case TRIPS_FILE fs of
        None \<Rightarrow> Inr (JObj [])
      | Some (Inl e) \<Rightarrow> if e = JSONDecodeError then Inr (JObj []) else Inl e
      | Some (Inr data) \<Rightarrow>
          (case data of
             JObj d \<Rightarrow>
               (case load_trips_loop d d of
                  Inl e \<Rightarrow> Inl e
                | Inr d' \<Rightarrow> Inr (JObj d'))
           | _ \<Rightarrow> Inl AttributeError))"

definition save_trips :: "json \<Rightarrow> disk \<Rightarrow> disk" where
  "save_trips trips fs = fs\<lparr>TRIPS_FILE := Some (Inr trips)\<rparr>"

text \<open>
  The documents the specification calls well formed: a users document maps each name to a
  password string or a record; a trip is complete when the eight fields the loader backfills
  are present, and a trip mapping is well formed when it maps distinct names to lists of
  complete trips.
\<close>

definition users_document :: "(string \<times> json) list \<Rightarrow> bool" where
  "users_document d =
     (distinct (map fst d) \<and>
      list_all (\<lambda>(u, v). case v of JStr _ \<Rightarrow> True | JObj _ \<Rightarrow> True | _ \<Rightarrow> False) d)"

definition trip_fields :: "string list" where
  "trip_fields =
     [''destination'', ''start_date'', ''end_date'', ''notes'',
      ''expenses'', ''checklist'', ''lat'', ''lon'']"

definition complete_trip :: "json \<Rightarrow> bool" where
  "complete_trip t =
     (case t of JObj r \<Rightarrow> list_all (\<lambda>k. map_of r k \<noteq> None) trip_fields | _ \<Rightarrow> False)"

definition well_formed_trips :: "json \<Rightarrow> bool" where
  "well_formed_trips T =
     (case T of
        JObj d \<Rightarrow>
          distinct (map fst d) \<and>
          list_all (\<lambda>(u, trs). case trs of JArr ts \<Rightarrow> list_all complete_trip ts | _ \<Rightarrow> False) d
      | _ \<Rightarrow> False)"

subsection \<open>Dates\<close>

text \<open>
  A \<^verbatim>\<open>datetime.date\<close> is its year, month and day. \<^verbatim>\<open>toordinal\<close> is the proleptic Gregorian
  day number of the standard library, and the \<^verbatim>\<open>days\<close> of the difference of two dates is the
  difference of their day numbers.
\<close>

record date =
  year :: int
  month :: int
  day :: int

definition is_leap :: "int \<Rightarrow> bool" where
  "is_leap y = (y mod 4 = 0 \<and> (y mod 100 \<noteq> 0 \<or> y mod 400 = 0))"

definition days_in_month :: "int \<Rightarrow> int \<Rightarrow> int" where
  "days_in_month y m =
     (if m = 2 \<and> is_leap y then 29
      else [31, 28, 31, 30, 31, 30, 31, 31, 30, 31, 30, 31] ! nat (m - 1))"

definition days_before_year :: "int \<Rightarrow> int" where
  "days_before_year y' = (let y = y' - 1 in y * 365 + y div 4 - y div 100 + y div 400)"

definition days_before_month :: "int \<Rightarrow> int \<Rightarrow> int" where
  "days_before_month y m =
     [0, 31, 59, 90, 120, 151, 181, 212, 243, 273, 304, 334] ! nat (m - 1)
       + (if m > 2 \<and> is_leap y then 1 else 0)"

definition toordinal :: "date \<Rightarrow> int" where
  "toordinal d = days_before_year (year d) + days_before_month (year d) (month d) + day d"

text \<open>The check of the \<^verbatim>\<open>date\<close> constructor; it raises \<^verbatim>\<open>ValueError\<close> outside these ranges.\<close>

definition valid_date :: "int \<Rightarrow> int \<Rightarrow> int \<Rightarrow> bool" where
  "valid_date y m d =
     (if 1 \<le> y \<and> y \<le> 9999 \<and> 1 \<le> m \<and> m \<le> 12
      then 1 \<le> d \<and> d \<le> days_in_month y m
      else False)"

text \<open>
  \<^verbatim>\<open>datetime.strptime(s, "%Y-%m-%d")\<close> matches the whole of \<open>s\<close> against four digits, a
  hyphen, a month (\<^verbatim>\<open>1[0-2]|0[1-9]|[1-9]\<close>), a hyphen and a day
  (\<^verbatim>\<open>3[0-1]|[1-2]\d|0[1-9]|[1-9]| [1-9]\<close>), and then builds the date.
\<close>

definition is_digit :: "char \<Rightarrow> bool" where
  "is_digit c = (let n = (of_char c :: nat) in 48 \<le> n \<and> n \<le> 57)"

definition digit_val :: "char \<Rightarrow> int" where
  "digit_val c = int (of_char c) - 48"

definition parse_month :: "string \<Rightarrow> int option" where
  "parse_month s =
     (case s of
        [a] \<Rightarrow> if is_digit a \<and> a \<noteq> CHR ''0'' then Some (digit_val a) else None
      | [a, b] \<Rightarrow>
          if a = CHR ''1'' \<and> b \<in> set ''012'' then Some (10 + digit_val b)
          else if a = CHR ''0'' \<and> is_digit b \<and> b \<noteq> CHR ''0'' then Some (digit_val b)
          else None
      | _ \<Rightarrow> None)"

definition parse_day :: "string \<Rightarrow> int option" where
  "parse_day s =
     (case s of
        [a] \<Rightarrow> if is_digit a \<and> a \<noteq> CHR ''0'' then Some (digit_val a) else None
      | [a, b] \<Rightarrow>
          if a = CHR ''3'' \<and> b \<in> set ''01'' then Some (30 + digit_val b)
          else if a \<in> set ''12'' \<and> is_digit b then Some (10 * digit_val a + digit_val b)
          else if a \<in> set ''0 '' \<and> is_digit b \<and> b \<noteq> CHR ''0'' then Some (digit_val b)
          else None
      | _ \<Rightarrow> None)"

definition strptime_ymd :: "string \<Rightarrow> date option" where
  "strptime_ymd s =
     (case s of
        y1 # y2 # y3 # y4 # h # rest \<Rightarrow>
          if is_digit y1 \<and> is_digit y2 \<and> is_digit y3 \<and> is_digit y4 \<and> h = CHR ''-'' then
            (case dropWhile (\<lambda>c. c \<noteq> CHR ''-'') rest of
               [] \<Rightarrow> None
             | _ # d_str \<Rightarrow>
                 (case parse_month (takeWhile (\<lambda>c. c \<noteq> CHR ''-'') rest) of
                    None \<Rightarrow> None
                  | Some m \<Rightarrow>
                      (case parse_day d_str of
                         None \<Rightarrow> None
                       | Some d \<Rightarrow>
                           (let y = 1000 * digit_val y1 + 100 * digit_val y2
                                      + 10 * digit_val y3 + digit_val y4
                            in if valid_date y m d
                               then Some \<lparr>year = y, month = m, day = d\<rparr>
                               else None))))
          else None
      | _ \<Rightarrow> None)"

text \<open>
  \<^verbatim>\<open>parse_date_str\<close> catches every exception: the \<^verbatim>\<open>ValueError\<close> of a string that does not
  parse and the \<^verbatim>\<open>TypeError\<close> of a value that is not a string both give \<^verbatim>\<open>None\<close>.
\<close>

fun parse_date_str :: "json \<Rightarrow> date option" where
  "parse_date_str (JStr s) = strptime_ymd s"
| "parse_date_str v = None"

subsection \<open>Reminders\<close>

text \<open>
  \<^verbatim>\<open>date.today()\<close> is the parameter \<open>today\<close>. A toast is represented by the two values its
  message is formatted from: the trip's destination and the number of days left.
\<close>

record toast =
  destination :: json
  days_left :: int

fun reminders_loop :: "date \<Rightarrow> json list \<Rightarrow> toast list \<Rightarrow> exn + toast list" where
  "reminders_loop today [] toasts = Inr toasts"
| "reminders_loop today (t # ts) toasts =
     (case t of
        JObj r \<Rightarrow>
          (case parse_date_str (dict_get r ''start_date'' (JStr '''')) of
             None \<Rightarrow> reminders_loop today ts toasts
           | Some d \<Rightarrow>
               (let n = toordinal d - toordinal today
                in if 0 \<le> n \<and> n \<le> 3
                   then reminders_loop today ts
                          (toasts @ [\<lparr>destination = dict_get r ''destination'' (JStr ''(unknown)''),
                                      days_left = n\<rparr>])
                   else reminders_loop today ts toasts))
      | _ \<Rightarrow> Inl AttributeError)"

definition trigger_reminders ::
  "date \<Rightarrow> string \<Rightarrow> (string \<times> json) list \<Rightarrow> exn + toast list" where
  "trigger_reminders today username trips_dict =
     (case py_iter (dict_get trips_dict username (JArr [])) of
        Inl e \<Rightarrow> Inl e
      | Inr ts \<Rightarrow> reminders_loop today ts [])"

text \<open>
  The specification's \<^verbatim>\<open>upcoming_reminders\<close>, in its own words: the trips whose start date
  parses and whose \<^verbatim>\<open>days_until_start\<close> (start date minus today, in days) lies in the closed
  range from 0 to 3, each with that number.
\<close>

definition days_until_start :: "date \<Rightarrow> json \<Rightarrow> int option" where
  "days_until_start today t =
     (case t of
        JObj r \<Rightarrow>
          map_option (\<lambda>d. toordinal d - toordinal today)
            (parse_date_str (dict_get r ''start_date'' (JStr '''')))
      | _ \<Rightarrow> None)"

definition upcoming_reminders :: "date \<Rightarrow> json list \<Rightarrow> toast list" where
  "upcoming_reminders today ts =
     concat (map (\<lambda>t. case (t, days_until_start today t) of
                        (JObj r, Some n) \<Rightarrow>
                          if 0 \<le> n \<and> n \<le> 3
                          then [\<lparr>destination = dict_get r ''destination'' (JStr ''(unknown)''),
                                 days_left = n\<rparr>]
                          else []
                      | _ \<Rightarrow> []) ts)"

subsection \<open>Expenses\<close>

text \<open>
  The truth value of a value, as \<^verbatim>\<open>x or 0\<close> tests it: \<^verbatim>\<open>None\<close>, \<^verbatim>\<open>False\<close>, zero and the
  empty string, list and dict are false.
\<close>

fun truthy :: "json \<Rightarrow> bool" where
  "truthy JNull = False"
| "truthy (JBool b) = b"
| "truthy (JInt i) = (i \<noteq> 0)"
| "truthy (JFloat f) = (f \<noteq> Finite 0)"
| "truthy (JStr s) = (s \<noteq> [])"
| "truthy (JArr xs) = (xs \<noteq> [])"
| "truthy (JObj d) = (d \<noteq> [])"

text \<open>Addition of floats.\<close>

fun fadd :: "pyfloat \<Rightarrow> pyfloat \<Rightarrow> pyfloat" where
  "fadd (Finite a) (Finite b) = Finite (a + b)"
| "fadd NaN y = NaN"
| "fadd x NaN = NaN"
| "fadd PosInf NegInf = NaN"
| "fadd NegInf PosInf = NaN"
| "fadd PosInf y = PosInf"
| "fadd NegInf y = NegInf"
| "fadd x PosInf = PosInf"
| "fadd x NegInf = NegInf"

text \<open>
  \<^verbatim>\<open>float(s)\<close> on a string. The string is stripped of white space; an underscore may stand
  only between two digits and is dropped; what remains is an optional sign followed by
  \<^verbatim>\<open>inf\<close>, \<^verbatim>\<open>infinity\<close> or \<^verbatim>\<open>nan\<close> in any case, or by a decimal number: digits with an optional
  point (at least one digit in all) and an optional exponent \<^verbatim>\<open>e\<close> or \<^verbatim>\<open>E\<close> with an optional
  sign and at least one digit. Anything else raises \<^verbatim>\<open>ValueError\<close>.
\<close>

fun underscores_ok :: "char \<Rightarrow> string \<Rightarrow> bool" where
  "underscores_ok prev [] = (prev \<noteq> CHR ''_'')"
| "underscores_ok prev (c # cs) =
     ((if c = CHR ''_'' then is_digit prev
       else if prev = CHR ''_'' then is_digit c else True)
      \<and> underscores_ok c cs)"

definition parse_sign :: "string \<Rightarrow> bool \<times> string" where
  "parse_sign s =
     (case s of
        [] \<Rightarrow> (False, [])
      | c # cs \<Rightarrow>
          if c = CHR ''-'' then (True, cs)
          else if c = CHR ''+'' then (False, cs)
          else (False, s))"

definition digits_value :: "string \<Rightarrow> nat" where
  "digits_value ds = foldl (\<lambda>a c. 10 * a + nat (digit_val c)) 0 ds"

definition parse_decimal :: "string \<Rightarrow> rat option" where
  "parse_decimal s =
     (let ip = takeWhile is_digit s;
          r1 = dropWhile is_digit s;
          fp = (case r1 of
                  [] \<Rightarrow> []
                | c # t \<Rightarrow> if c = CHR ''.'' then takeWhile is_digit t else []);
          r2 = (case r1 of
                  [] \<Rightarrow> []
                | c # t \<Rightarrow> if c = CHR ''.'' then dropWhile is_digit t else r1);
          mantissa = (of_nat (digits_value (ip @ fp)) :: rat) / 10 ^ length fp
      in if ip = [] \<and> fp = [] then None
         else (case r2 of
                 [] \<Rightarrow> Some mantissa
               | e # t \<Rightarrow>
                   if e = CHR ''e'' \<or> e = CHR ''E'' then
                     (case parse_sign t of
                        (neg, ds) \<Rightarrow>
                          if ds \<noteq> [] \<and> list_all is_digit ds then
                            Some (if neg then mantissa / 10 ^ digits_value ds
                                  else mantissa * 10 ^ digits_value ds)
                          else None)
                   else None))"

definition float_of_string :: "string \<Rightarrow> exn + pyfloat" where
  "float_of_string s =
     (let t = strip s in
      if t = [] \<or> \<not> underscores_ok (CHR 0x00) t then Inl ValueError
      else
        (case parse_sign (filter (\<lambda>c. c \<noteq> CHR ''_'') t) of
           (neg, body) \<Rightarrow>
             if lower body = ''inf'' \<or> lower body = ''infinity''
             then Inr (if neg then NegInf else PosInf)
             else if lower body = ''nan'' then Inr NaN
             else (case parse_decimal body of
                     None \<Rightarrow> Inl ValueError
                   | Some q \<Rightarrow> Inr (Finite (if neg then - q else q)))))"

text \<open>
  \<^verbatim>\<open>float(x)\<close>: a float is itself, an integer converts unless it is too large for the float
  format, a boolean is 0 or 1, a string is parsed, and \<^verbatim>\<open>None\<close>, lists and dicts raise
  \<^verbatim>\<open>TypeError\<close>.
\<close>

fun py_float :: "json \<Rightarrow> exn + pyfloat" where
  "py_float (JFloat f) = Inr f"
| "py_float (JInt i) =
     (if \<bar>i\<bar> \<ge> 2 ^ 1024 - 2 ^ 970 then Inl OverflowError else Inr (Finite (of_int i)))"
| "py_float (JBool b) = Inr (Finite (if b then 1 else 0))"
| "py_float (JStr s) = float_of_string s"
| "py_float v = Inl TypeError"

text \<open>\<^verbatim>\<open>float(e.get("amount", 0) or 0)\<close> for one expense.\<close>

definition expense_amount :: "json \<Rightarrow> exn + pyfloat" where
  "expense_amount e =
     (case e of
        JObj r \<Rightarrow>
          (let a = dict_get r ''amount'' (JInt 0)
           in py_float (if truthy a then a else JInt 0))
      | _ \<Rightarrow> Inl AttributeError)"

text \<open>
  The accumulation loops of the Insights page. The rows collected for the charts do not
  feed back into the totals and are left out.
\<close>

fun trip_total_loop :: "json list \<Rightarrow> pyfloat \<Rightarrow> exn + pyfloat" where
  "trip_total_loop [] trip_total = Inr trip_total"
| "trip_total_loop (e # es) trip_total =
     (case expense_amount e of
        Inl x \<Rightarrow> Inl x
      | Inr amt \<Rightarrow> trip_total_loop es (fadd trip_total amt))"

fun total_expenses_loop :: "json list \<Rightarrow> pyfloat \<Rightarrow> exn + pyfloat" where
  "total_expenses_loop [] total_expenses = Inr total_expenses"
| "total_expenses_loop (t # ts) total_expenses =
     (case t of
        JObj r \<Rightarrow>
          (case py_iter (dict_get r ''expenses'' (JArr [])) of
             Inl x \<Rightarrow> Inl x
           | Inr es \<Rightarrow>
               (case trip_total_loop es (Finite 0) of
                  Inl x \<Rightarrow> Inl x
                | Inr trip_total \<Rightarrow> total_expenses_loop ts (fadd total_expenses trip_total)))
      | _ \<Rightarrow> Inl AttributeError)"

definition total_expenses :: "json list \<Rightarrow> exn + pyfloat" where
  "total_expenses user_trips = total_expenses_loop user_trips (Finite 0)"


subsection \<open>Login\<close>

text \<open>
  \<^verbatim>\<open>bcrypt.checkpw\<close> is the parameter \<open>checkpw\<close>: for a password and a stored string it
  returns a boolean or raises. \<^verbatim>\<open>check_password\<close> encodes both arguments first, which
  raises \<^verbatim>\<open>AttributeError\<close> when the stored value is not a string.
\<close>

definition check_password :: "(string \<Rightarrow> string \<Rightarrow> exn + bool) \<Rightarrow> string \<Rightarrow> json \<Rightarrow> exn + bool" where
  "check_password checkpw password hashed =
     (case hashed of JStr h \<Rightarrow> checkpw password h | _ \<Rightarrow> Inl AttributeError)"

text \<open>
  The handler of the Login button. \<^verbatim>\<open>users\<close> and \<^verbatim>\<open>trips\<close> are the dicts loaded at start-up.
  The outcome is the welcome (with the role stored in the session and the reminders raised)
  or the message \<^verbatim>\<open>Invalid credentials.\<close>; an exception leaves the handler uncaught.
\<close>

datatype login_outcome = Welcome json "toast list" | Invalid_credentials

definition login_button ::
  "(string \<Rightarrow> string \<Rightarrow> exn + bool) \<Rightarrow> date \<Rightarrow> (string \<times> json) list \<Rightarrow> (string \<times> json) list \<Rightarrow>
     string \<Rightarrow> string \<Rightarrow> exn + login_outcome" where
  "login_button checkpw today users trips username password =
     (case map_of users username of
        None \<Rightarrow> Inr Invalid_credentials
      | Some u \<Rightarrow>
          (case u of
             JObj r \<Rightarrow>
               (case map_of r ''password'' of
                  None \<Rightarrow> Inl KeyError
                | Some hashed \<Rightarrow>
                    (case check_password checkpw password hashed of
                       Inl e \<Rightarrow> Inl e
                     | Inr ok \<Rightarrow>
                         if ok then
                           (case trigger_reminders today username trips of
                              Inl e \<Rightarrow> Inl e
                            | Inr toasts \<Rightarrow>
                                Inr (Welcome (dict_get r ''role'' (JStr ''user'')) toasts))
                         else Inr Invalid_credentials))
           | _ \<Rightarrow> Inl TypeError))"

section \<open>Properties\<close>

subsection \<open>Properties of the badge computation\<close>

lemma tiers_len: "length tiers = 5" by (simp add: tiers_def)

lemma tiers_nth:
  "tiers ! 0 = (''New Traveler'', 0)"
  "tiers ! Suc 0 = (''Explorer'', 1)"
  "tiers ! Suc (Suc 0) = (''Adventurer'', 3)"
  "tiers ! Suc (Suc (Suc 0)) = (''Globetrotter'', 6)"
  "tiers ! Suc (Suc (Suc (Suc 0))) = (''World Citizen'', 10)"
  by (simp_all add: tiers_def)

lemma tiers_nth_num:
  "tiers ! 1 = (''Explorer'', 1)"
  "tiers ! 2 = (''Adventurer'', 3)"
  "tiers ! 3 = (''Globetrotter'', 6)"
  "tiers ! 4 = (''World Citizen'', 10)"
  by (simp_all add: tiers_def)

lemma tier_index_cases:
  "j < length tiers \<Longrightarrow> j = 0 \<or> j = 1 \<or> j = 2 \<or> j = 3 \<or> j = 4"
  unfolding tiers_len by arith

lemma get_user_badge_ranges:
  "get_user_badge n =
     (if n < 1 then (''New Traveler'', 0, Some 1)
      else if n < 3 then (''Explorer'', 1, Some 3)
      else if n < 6 then (''Adventurer'', 2, Some 6)
      else if n < 10 then (''Globetrotter'', 3, Some 10)
      else (''World Citizen'', 4, None))"
  unfolding get_user_badge_def
  by (subst badge_scan.simps, simp add: tiers_len tiers_nth)+

text \<open>
  Claim C3. For every non-negative trip count, \<^verbatim>\<open>get_user_badge\<close> selects the highest tier of
  the table whose threshold is at most the trip count and returns that tier's name, its index
  and the threshold of the tier immediately above, or \<^verbatim>\<open>None\<close> when the selected tier is the
  last one. In particular the results at 0, 3, 10 and 999 are the ones the specification lists.
\<close>

theorem get_user_badge_highest_tier:
  "0 \<le> n \<Longrightarrow>
     (\<exists>k < length tiers.
        snd (tiers ! k) \<le> n \<and>
        (\<forall>j < length tiers. snd (tiers ! j) \<le> n \<longrightarrow> j \<le> k) \<and>
        get_user_badge n =
          (fst (tiers ! k), int k,
           if k + 1 < length tiers then Some (snd (tiers ! (k + 1))) else None))
     \<and> get_user_badge 0 = (''New Traveler'', 0, Some 1)
     \<and> get_user_badge 3 = (''Adventurer'', 2, Some 6)
     \<and> get_user_badge 10 = (''World Citizen'', 4, None)
     \<and> get_user_badge 999 = (''World Citizen'', 4, None)"
proof -
  assume n0: "0 \<le> n"
  have bound: "\<forall>j < length tiers. snd (tiers ! j) \<le> n \<longrightarrow> j \<le> k"
    if "k < 4 \<Longrightarrow> n < snd (tiers ! (k + 1))" "k \<le> 4" for k
  proof (intro allI impI)
    fix j assume j: "j < length tiers" and le: "snd (tiers ! j) \<le> n"
    from tier_index_cases [OF j] that le show "j \<le> k"
      by (cases "k = 0"; cases "k = 1"; cases "k = 2"; cases "k = 3")
         (auto simp: tiers_nth tiers_nth_num)
  qed
  consider "n < 1" | "1 \<le> n" "n < 3" | "3 \<le> n" "n < 6" | "6 \<le> n" "n < 10" | "10 \<le> n"
    by linarith
  then have "\<exists>k < length tiers.
        snd (tiers ! k) \<le> n \<and>
        (\<forall>j < length tiers. snd (tiers ! j) \<le> n \<longrightarrow> j \<le> k) \<and>
        get_user_badge n =
          (fst (tiers ! k), int k,
           if k + 1 < length tiers then Some (snd (tiers ! (k + 1))) else None)"
  proof cases
    case 1
    with n0 bound [of 0] show ?thesis
      by (intro exI [of _ 0]) (simp add: get_user_badge_ranges tiers_len tiers_nth tiers_nth_num)
  next
    case 2
    with bound [of 1] show ?thesis
      by (intro exI [of _ 1]) (simp add: get_user_badge_ranges tiers_len tiers_nth tiers_nth_num)
  next
    case 3
    with bound [of 2] show ?thesis
      by (intro exI [of _ 2]) (simp add: get_user_badge_ranges tiers_len tiers_nth tiers_nth_num)
  next
    case 4
    with bound [of 3] show ?thesis
      by (intro exI [of _ 3]) (simp add: get_user_badge_ranges tiers_len tiers_nth tiers_nth_num)
  next
    case 5
    with bound [of 4] show ?thesis
      by (intro exI [of _ 4]) (simp add: get_user_badge_ranges tiers_len tiers_nth tiers_nth_num)
  qed
  then show ?thesis
    by (simp add: get_user_badge_ranges)
qed

theorem get_user_badge_highest_tier_witness:
  "(0::int) \<le> 7 \<and> get_user_badge 7 = (''Globetrotter'', 3, Some 10)
     \<and> snd (tiers ! 3) \<le> 7 \<and> 7 < snd (tiers ! 4)"
  using get_user_badge_highest_tier [of 7]
  by (simp add: get_user_badge_ranges tiers_nth_num)

text \<open>
  Claim C4. For every non-negative trip count \<open>n\<close>, the next threshold returned by
  \<^verbatim>\<open>get_user_badge\<close> is either \<^verbatim>\<open>None\<close> or strictly greater than \<open>n\<close>.
\<close>

theorem get_user_badge_next_threshold:
  "0 \<le> n \<Longrightarrow>
     (case snd (snd (get_user_badge n)) of None \<Rightarrow> True | Some t \<Rightarrow> n < t)"
  by (simp add: get_user_badge_ranges)

theorem get_user_badge_next_threshold_witness:
  "(0::int) \<le> 5 \<and> snd (snd (get_user_badge 5)) = Some 6 \<and> (5::int) < 6"
  using get_user_badge_next_threshold [of 5]
  by (simp add: get_user_badge_ranges)

text \<open>
  Claim C10. For every negative trip count the scan breaks at the first tier and the initial
  defaults are returned: the result is that of trip count 0. The scan terminates on every
  integer (the termination proof of \<^const>\<open>badge_scan\<close>).
\<close>

theorem get_user_badge_negative:
  "n < 0 \<Longrightarrow> get_user_badge n = (''New Traveler'', 0, Some 1) \<and> get_user_badge n = get_user_badge 0"
  by (simp add: get_user_badge_ranges)

theorem get_user_badge_negative_witness:
  "(-4::int) < 0 \<and> get_user_badge (-4) = (''New Traveler'', 0, Some 1)"
  using get_user_badge_negative [of "-4"] by simp

subsection \<open>Properties of the fallback coordinates\<close>

lemma centroid_scan_None:
  "centroid_scan items key = None \<longleftrightarrow> (\<forall>k \<in> fst ` set items. \<not> sublist k key)"
  by (induction items key rule: centroid_scan.induct) auto

lemma centroid_scan_Some:
  "centroid_scan items key = Some v \<longleftrightarrow>
     (\<exists>i < length items. snd (items ! i) = v \<and> sublist (fst (items ! i)) key \<and>
        (\<forall>j < i. \<not> sublist (fst (items ! j)) key))"
proof (induction items key rule: centroid_scan.induct)
  case (1 key)
  show ?case by simp
next
  case (2 k w items key)
  show ?case
  proof (cases "sublist k key")
    case True
    have "(\<exists>i < length ((k, w) # items). snd (((k, w) # items) ! i) = v \<and>
             sublist (fst (((k, w) # items) ! i)) key \<and>
             (\<forall>j < i. \<not> sublist (fst (((k, w) # items) ! j)) key)) \<longleftrightarrow> w = v"
    proof
      assume "\<exists>i < length ((k, w) # items). snd (((k, w) # items) ! i) = v \<and>
             sublist (fst (((k, w) # items) ! i)) key \<and>
             (\<forall>j < i. \<not> sublist (fst (((k, w) # items) ! j)) key)"
      then obtain i where i: "snd (((k, w) # items) ! i) = v"
        and first: "\<forall>j < i. \<not> sublist (fst (((k, w) # items) ! j)) key" by blast
      have "i = 0"
      proof (rule ccontr)
        assume "i \<noteq> 0"
        then have "0 < i" by simp
        with first have "\<not> sublist (fst (((k, w) # items) ! 0)) key" by blast
        with True show False by simp
      qed
      with i show "w = v" by simp
    next
      assume "w = v"
      with True show "\<exists>i < length ((k, w) # items). snd (((k, w) # items) ! i) = v \<and>
             sublist (fst (((k, w) # items) ! i)) key \<and>
             (\<forall>j < i. \<not> sublist (fst (((k, w) # items) ! j)) key)"
        by (intro exI [of _ 0]) simp
    qed
    with True show ?thesis by auto
  next
    case False
    have "(\<exists>i < length ((k, w) # items). snd (((k, w) # items) ! i) = v \<and>
             sublist (fst (((k, w) # items) ! i)) key \<and>
             (\<forall>j < i. \<not> sublist (fst (((k, w) # items) ! j)) key)) \<longleftrightarrow>
          (\<exists>i < length items. snd (items ! i) = v \<and> sublist (fst (items ! i)) key \<and>
             (\<forall>j < i. \<not> sublist (fst (items ! j)) key))" (is "?L \<longleftrightarrow> ?R")
    proof
      assume ?L
      then obtain i where i: "i < length ((k, w) # items)" "snd (((k, w) # items) ! i) = v"
        "sublist (fst (((k, w) # items) ! i)) key"
        and first: "\<forall>j < i. \<not> sublist (fst (((k, w) # items) ! j)) key" by blast
      from i(3) False obtain i' where i': "i = Suc i'" by (cases i) auto
      have "\<forall>j < i'. \<not> sublist (fst (items ! j)) key"
      proof (intro allI impI)
        fix j assume "j < i'"
        then have "Suc j < i" using i' by simp
        with first have "\<not> sublist (fst (((k, w) # items) ! Suc j)) key" by blast
        then show "\<not> sublist (fst (items ! j)) key" by simp
      qed
      with i i' show ?R by (intro exI [of _ i']) simp
    next
      assume ?R
      then obtain i where i: "i < length items" "snd (items ! i) = v"
        "sublist (fst (items ! i)) key"
        and first: "\<forall>j < i. \<not> sublist (fst (items ! j)) key" by blast
      have "\<forall>j < Suc i. \<not> sublist (fst (((k, w) # items) ! j)) key"
      proof (intro allI impI)
        fix j assume "j < Suc i"
        with first False show "\<not> sublist (fst (((k, w) # items) ! j)) key"
          by (cases j) auto
      qed
      with i show ?L by (intro exI [of _ "Suc i"]) simp
    qed
    with False 2 show ?thesis by simp
  qed
qed

text \<open>
  Claim C1, as the code has it. The input is trimmed and lower-cased, and the result is the
  value of the first key, in table order, that is a substring of it, or \<^verbatim>\<open>None\<close> when no key
  is. In the table \<^verbatim>\<open>france\<close> stands before \<^verbatim>\<open>paris\<close>, so for \<^verbatim>\<open>Paris, France\<close> the result is
  the \<^verbatim>\<open>france\<close> entry (46.2, 2.2).
\<close>

theorem fallback_coords_first_match:
  "fallback_coords_for_destination ''Paris, France'' = Some (46.2, 2.2)
   \<and> (fallback_coords_for_destination dest = None \<longleftrightarrow>
        (\<forall>k \<in> fst ` set FALLBACK_CENTROIDS. \<not> sublist k (lower (strip dest))))
   \<and> (fallback_coords_for_destination dest = Some v \<longleftrightarrow>
        (\<exists>i < length FALLBACK_CENTROIDS.
           snd (FALLBACK_CENTROIDS ! i) = v \<and>
           sublist (fst (FALLBACK_CENTROIDS ! i)) (lower (strip dest)) \<and>
           (\<forall>j < i. \<not> sublist (fst (FALLBACK_CENTROIDS ! j)) (lower (strip dest)))))"
proof (intro conjI)
  show "fallback_coords_for_destination ''Paris, France'' = Some (46.2, 2.2)"
    by code_simp
  show "fallback_coords_for_destination dest = None \<longleftrightarrow>
        (\<forall>k \<in> fst ` set FALLBACK_CENTROIDS. \<not> sublist k (lower (strip dest)))"
    by (simp only: fallback_coords_for_destination_def Let_def centroid_scan_None)
  show "fallback_coords_for_destination dest = Some v \<longleftrightarrow>
        (\<exists>i < length FALLBACK_CENTROIDS.
           snd (FALLBACK_CENTROIDS ! i) = v \<and>
           sublist (fst (FALLBACK_CENTROIDS ! i)) (lower (strip dest)) \<and>
           (\<forall>j < i. \<not> sublist (fst (FALLBACK_CENTROIDS ! j)) (lower (strip dest))))"
    by (simp only: fallback_coords_for_destination_def Let_def centroid_scan_Some)
qed

theorem fallback_coords_first_match_witness:
  "fallback_coords_for_destination ''  Tokyo, JAPAN '' = Some (36.20, 138.25)
   \<and> lower (strip ''  Tokyo, JAPAN '') = ''tokyo, japan''
   \<and> FALLBACK_CENTROIDS ! 4 = (''japan'', (36.20, 138.25))
   \<and> FALLBACK_CENTROIDS ! 5 = (''tokyo'', (35.67, 139.65))
   \<and> fallback_coords_for_destination ''Berlin'' = None"
proof -
  have a: "fallback_coords_for_destination ''  Tokyo, JAPAN '' = Some (36.20, 138.25)"
    by code_simp
  have b: "lower (strip ''  Tokyo, JAPAN '') = ''tokyo, japan''"
    by code_simp
  have c: "FALLBACK_CENTROIDS ! 4 = (''japan'', (36.20, 138.25))"
    "FALLBACK_CENTROIDS ! 5 = (''tokyo'', (35.67, 139.65))"
    by (simp_all add: FALLBACK_CENTROIDS_def)
  have d: "\<forall>k \<in> fst ` set FALLBACK_CENTROIDS. \<not> sublist k (lower (strip ''Berlin''))"
    by code_simp
  from fallback_coords_first_match [of "''Berlin''" "(0, 0)"] d
  have "fallback_coords_for_destination ''Berlin'' = None" by blast
  with a b c show ?thesis by simp
qed

text \<open>
  Claim C1 as stated expects the \<^verbatim>\<open>paris\<close> entry (48.85, 2.35) for \<^verbatim>\<open>Paris, France\<close>; the
  function returns the \<^verbatim>\<open>france\<close> entry, which is the first entry of the table.
\<close>

theorem fallback_coords_paris_france_counterexample:
  "fallback_coords_for_destination ''Paris, France'' \<noteq> Some (48.85, 2.35)
   \<and> fallback_coords_for_destination ''Paris, France'' = Some (46.2, 2.2)
   \<and> FALLBACK_CENTROIDS ! 0 = (''france'', (46.2, 2.2))
   \<and> FALLBACK_CENTROIDS ! 1 = (''paris'', (48.85, 2.35))"
proof -
  have "fallback_coords_for_destination ''Paris, France'' = Some (46.2, 2.2)"
    by code_simp
  then show ?thesis by (simp add: FALLBACK_CENTROIDS_def)
qed

subsection \<open>Properties of the persistence functions\<close>

lemma setdefault_present: "map_of d k = Some w \<Longrightarrow> setdefault k v d = d"
  by (simp add: setdefault_def)

lemma map_of_setdefault_other: "map_of d k' = Some w \<Longrightarrow> map_of (setdefault k v d) k' = Some w"
  by (simp add: setdefault_def split: option.splits)

lemma map_of_dict_set: "map_of (dict_set k v d) = (map_of d)(k \<mapsto> v)"
  by (induction k v d rule: dict_set.induct) auto

lemma dict_set_same: "map_of d k = Some v \<Longrightarrow> dict_set k v d = d"
  by (induction k v d rule: dict_set.induct) (auto split: if_splits)

lemma backfill_trip_complete: "complete_trip t \<Longrightarrow> backfill_trip t = Inr t"
  by (cases t) (auto simp: complete_trip_def backfill_trip_def trip_fields_def setdefault_def)

lemma backfill_loop_complete:
  "list_all complete_trip ts \<Longrightarrow> backfill_loop ts new_trs = Inr (new_trs @ ts)"
  by (induction ts arbitrary: new_trs) (simp_all add: backfill_trip_complete)

lemma load_trips_loop_complete:
  assumes "\<forall>(u, trs) \<in> set items. map_of data u = Some trs \<and>
             (case trs of JArr ts \<Rightarrow> list_all complete_trip ts | _ \<Rightarrow> False)"
  shows "load_trips_loop items data = Inr data"
  using assms
proof (induction items)
  case Nil
  show ?case by simp
next
  case (Cons item items)
  obtain u trs where item: "item = (u, trs)" by (cases item)
  from Cons.prems item have look: "map_of data u = Some trs"
    and shape: "case trs of JArr ts \<Rightarrow> list_all complete_trip ts | _ \<Rightarrow> False"
    by auto
  from shape obtain ts where trs: "trs = JArr ts" and ts: "list_all complete_trip ts"
    by (cases trs) auto
  from Cons.prems have rest: "\<forall>(u, trs) \<in> set items. map_of data u = Some trs \<and>
             (case trs of JArr ts \<Rightarrow> list_all complete_trip ts | _ \<Rightarrow> False)"
    by simp
  have "load_trips_loop (item # items) data = load_trips_loop items (dict_set u (JArr ts) data)"
    by (simp add: item trs backfill_loop_complete [OF ts])
  also have "dict_set u (JArr ts) data = data"
    using look trs by (simp add: dict_set_same)
  finally show ?case using Cons.IH [OF rest] by simp
qed

lemma load_trips_well_formed:
  assumes "well_formed_trips T"
  shows "load_trips (save_trips T fs) = Inr T"
proof -
  from assms obtain d where T: "T = JObj d" and dist: "distinct (map fst d)"
    and all: "list_all (\<lambda>(u, trs). case trs of JArr ts \<Rightarrow> list_all complete_trip ts | _ \<Rightarrow> False) d"
    by (cases T) (auto simp: well_formed_trips_def)
  have "\<forall>(u, trs) \<in> set d. map_of d u = Some trs \<and>
          (case trs of JArr ts \<Rightarrow> list_all complete_trip ts | _ \<Rightarrow> False)"
    using dist all by (auto simp: list_all_iff)
  then have "load_trips_loop d d = Inr d" by (rule load_trips_loop_complete)
  then show ?thesis by (simp add: load_trips_def save_trips_def T)
qed

text \<open>
  Claim C7. For a well-formed trip mapping \<open>T\<close> (distinct user names, each mapped to a list
  of trips that have all eight fields), loading after saving returns \<open>T\<close> itself, so saving
  the loaded value again leaves the file as the first save wrote it; the backfill of
  \<^verbatim>\<open>load_trips\<close> is the identity on a complete trip.
\<close>

theorem save_load_trips_round_trip:
  "well_formed_trips T \<Longrightarrow>
     load_trips (save_trips T fs) = Inr T
     \<and> (\<forall>T'. load_trips (save_trips T fs) = Inr T' \<longrightarrow>
           save_trips T' (save_trips T fs) = save_trips T fs)
     \<and> (\<forall>t. complete_trip t \<longrightarrow> backfill_trip t = Inr t)"
  by (simp add: load_trips_well_formed backfill_trip_complete) (simp add: save_trips_def)

theorem save_load_trips_round_trip_witness:
  "well_formed_trips
     (JObj [(''alice'',
             JArr [JObj [(''destination'', JStr ''Rome''), (''start_date'', JStr ''2025-06-03''),
                         (''end_date'', JStr ''2025-06-09''), (''notes'', JStr ''''),
                         (''expenses'', JArr []), (''checklist'', JArr []),
                         (''lat'', JNull), (''lon'', JNull)]]),
            (''bob'', JArr [])])
   \<and> load_trips (save_trips
        (JObj [(''alice'',
             JArr [JObj [(''destination'', JStr ''Rome''), (''start_date'', JStr ''2025-06-03''),
                         (''end_date'', JStr ''2025-06-09''), (''notes'', JStr ''''),
                         (''expenses'', JArr []), (''checklist'', JArr []),
                         (''lat'', JNull), (''lon'', JNull)]]),
            (''bob'', JArr [])])
        \<lparr>USERS_FILE = None, TRIPS_FILE = None\<rparr>)
     = Inr (JObj [(''alice'',
             JArr [JObj [(''destination'', JStr ''Rome''), (''start_date'', JStr ''2025-06-03''),
                         (''end_date'', JStr ''2025-06-09''), (''notes'', JStr ''''),
                         (''expenses'', JArr []), (''checklist'', JArr []),
                         (''lat'', JNull), (''lon'', JNull)]]),
            (''bob'', JArr [])])"
proof -
  let ?T = "JObj [(''alice'',
             JArr [JObj [(''destination'', JStr ''Rome''), (''start_date'', JStr ''2025-06-03''),
                         (''end_date'', JStr ''2025-06-09''), (''notes'', JStr ''''),
                         (''expenses'', JArr []), (''checklist'', JArr []),
                         (''lat'', JNull), (''lon'', JNull)]]),
            (''bob'', JArr [])]"
  have wf: "well_formed_trips ?T"
    by (simp add: well_formed_trips_def complete_trip_def trip_fields_def)
  from save_load_trips_round_trip [OF wf, of "\<lparr>USERS_FILE = None, TRIPS_FILE = None\<rparr>"] wf
  show ?thesis by blast
qed

lemma upgrade_user_legacy:
  "upgrade_user (JStr pw) =
     Inr (JObj [(''password'', JStr pw), (''profile_pic'', JNull), (''role'', JStr ''user''),
                (''bio'', JStr ''''), (''favorite_destination'', JStr ''''),
                (''goals'', JStr '''')])"
  by (simp add: upgrade_user_def setdefault_def)

lemma upgrade_user_legacy_again:
  "upgrade_user
     (JObj [(''password'', JStr pw), (''profile_pic'', JNull), (''role'', JStr ''user''),
            (''bio'', JStr ''''), (''favorite_destination'', JStr ''''),
            (''goals'', JStr '''')]) =
     Inr (JObj [(''password'', JStr pw), (''profile_pic'', JNull), (''role'', JStr ''user''),
                (''bio'', JStr ''''), (''favorite_destination'', JStr ''''),
                (''goals'', JStr '''')])"
  by (simp add: upgrade_user_def setdefault_def)

lemma upgrade_user_shape:
  "(case v of JStr _ \<Rightarrow> True | JObj _ \<Rightarrow> True | _ \<Rightarrow> False) \<Longrightarrow>
     \<exists>r. upgrade_user v = Inr (JObj r)"
  by (cases v) (simp_all add: upgrade_user_def)

lemma load_users_loop_succeeds:
  assumes "\<forall>u \<in> set us. \<exists>v. map_of data u = Some v \<and>
             (case v of JStr _ \<Rightarrow> True | JObj _ \<Rightarrow> True | _ \<Rightarrow> False)"
  shows "\<exists>d'. load_users_loop us data = Inr d'"
  using assms
proof (induction us arbitrary: data)
  case Nil
  show ?case by simp
next
  case (Cons user users)
  from Cons.prems obtain v where v: "map_of data user = Some v"
    "case v of JStr _ \<Rightarrow> True | JObj _ \<Rightarrow> True | _ \<Rightarrow> False" by auto
  from upgrade_user_shape [OF v(2)] obtain r where r: "upgrade_user v = Inr (JObj r)" by blast
  have "\<forall>u \<in> set users. \<exists>w. map_of (dict_set user (JObj r) data) u = Some w \<and>
          (case w of JStr _ \<Rightarrow> True | JObj _ \<Rightarrow> True | _ \<Rightarrow> False)"
    using Cons.prems by (auto simp: map_of_dict_set)
  from Cons.IH [OF this] show ?case by (simp add: v r)
qed

lemma load_users_loop_keeps_record:
  assumes "map_of data u =
             Some (JObj [(''password'', JStr pw), (''profile_pic'', JNull), (''role'', JStr ''user''),
                (''bio'', JStr ''''), (''favorite_destination'', JStr ''''),
                (''goals'', JStr '''')])"
    and "load_users_loop us data = Inr d'"
  shows "map_of d' u =
             Some (JObj [(''password'', JStr pw), (''profile_pic'', JNull), (''role'', JStr ''user''),
                (''bio'', JStr ''''), (''favorite_destination'', JStr ''''),
                (''goals'', JStr '''')])"
  using assms
proof (induction us arbitrary: data)
  case Nil
  then show ?case by simp
next
  case (Cons user users)
  from Cons.prems(2) obtain v v' where v: "map_of data user = Some v" "upgrade_user v = Inr v'"
    and rest: "load_users_loop users (dict_set user v' data) = Inr d'"
    by (auto split: option.splits sum.splits)
  show ?case
  proof (cases "user = u")
    case True
    with v(1) Cons.prems(1) have "v = JObj [(''password'', JStr pw), (''profile_pic'', JNull),
        (''role'', JStr ''user''), (''bio'', JStr ''''), (''favorite_destination'', JStr ''''),
        (''goals'', JStr '''')]"
      by simp
    with v(2) have "v' = JObj [(''password'', JStr pw), (''profile_pic'', JNull),
        (''role'', JStr ''user''), (''bio'', JStr ''''), (''favorite_destination'', JStr ''''),
        (''goals'', JStr '''')]"
      by (simp only: upgrade_user_legacy_again sum.inject)
    with True have "map_of (dict_set user v' data) u = Some (JObj [(''password'', JStr pw),
        (''profile_pic'', JNull), (''role'', JStr ''user''), (''bio'', JStr ''''),
        (''favorite_destination'', JStr ''''), (''goals'', JStr '''')])"
      by (simp add: map_of_dict_set)
    from Cons.IH [OF this rest] show ?thesis .
  next
    case False
    with Cons.prems(1) have "map_of (dict_set user v' data) u = Some (JObj [(''password'', JStr pw),
        (''profile_pic'', JNull), (''role'', JStr ''user''), (''bio'', JStr ''''),
        (''favorite_destination'', JStr ''''), (''goals'', JStr '''')])"
      by (simp add: map_of_dict_set)
    from Cons.IH [OF this rest] show ?thesis .
  qed
qed

lemma load_users_loop_upgrades:
  assumes "map_of data u = Some (JStr pw)" and "u \<in> set us"
    and "load_users_loop us data = Inr d'"
  shows "map_of d' u =
             Some (JObj [(''password'', JStr pw), (''profile_pic'', JNull), (''role'', JStr ''user''),
                (''bio'', JStr ''''), (''favorite_destination'', JStr ''''),
                (''goals'', JStr '''')])"
  using assms
proof (induction us arbitrary: data)
  case Nil
  then show ?case by simp
next
  case (Cons user users)
  from Cons.prems(3) obtain v v' where v: "map_of data user = Some v" "upgrade_user v = Inr v'"
    and rest: "load_users_loop users (dict_set user v' data) = Inr d'"
    by (auto split: option.splits sum.splits)
  show ?case
  proof (cases "user = u")
    case True
    with v(1) Cons.prems(1) have "v = JStr pw"
      by simp
    with v(2) have "v' = JObj [(''password'', JStr pw), (''profile_pic'', JNull),
        (''role'', JStr ''user''), (''bio'', JStr ''''), (''favorite_destination'', JStr ''''),
        (''goals'', JStr '''')]"
      by (simp only: upgrade_user_legacy sum.inject)
    with True have "map_of (dict_set user v' data) u = Some (JObj [(''password'', JStr pw),
        (''profile_pic'', JNull), (''role'', JStr ''user''), (''bio'', JStr ''''),
        (''favorite_destination'', JStr ''''), (''goals'', JStr '''')])"
      by (simp add: map_of_dict_set)
    from load_users_loop_keeps_record [OF this rest] show ?thesis .
  next
    case False
    with Cons.prems have "map_of (dict_set user v' data) u = Some (JStr pw)" "u \<in> set users"
      by (simp_all add: map_of_dict_set)
    from Cons.IH [OF this rest] show ?thesis .
  qed
qed

text \<open>
  Claim C8. When the users document maps a name to a bare string, \<^verbatim>\<open>load_users\<close> succeeds and
  maps that name to a full record: the string as password, no profile picture, role
  \<^verbatim>\<open>user\<close>, and empty bio, favourite destination and goals.
\<close>

theorem load_users_upgrades_legacy_password:
  assumes "USERS_FILE fs = Some (Inr (JObj d))"
    and "users_document d"
    and "map_of d u = Some (JStr pw)"
  shows "\<exists>d'. load_users fs = Inr (JObj d') \<and>
           map_of d' u =
             Some (JObj [(''password'', JStr pw), (''profile_pic'', JNull),
                         (''role'', JStr ''user''), (''bio'', JStr ''''),
                         (''favorite_destination'', JStr ''''), (''goals'', JStr '''')]) \<and>
           (\<forall>r. map_of d' u = Some (JObj r) \<longrightarrow>
              dict_get r ''password'' JNull = JStr pw \<and>
              dict_get r ''role'' JNull = JStr ''user'' \<and>
              map_of r ''profile_pic'' = Some JNull \<and>
              dict_get r ''bio'' JNull = JStr '''' \<and>
              dict_get r ''favorite_destination'' JNull = JStr '''' \<and>
              dict_get r ''goals'' JNull = JStr '''')"
proof -
  have "\<forall>u \<in> set (map fst d). \<exists>v. map_of d u = Some v \<and>
          (case v of JStr _ \<Rightarrow> True | JObj _ \<Rightarrow> True | _ \<Rightarrow> False)"
  proof
    fix k assume "k \<in> set (map fst d)"
    then obtain v where v: "map_of d k = Some v"
      by (metis map_of_eq_None_iff not_Some_eq set_map)
    then have "(k, v) \<in> set d" by (rule map_of_SomeD)
    with assms(2) have "case v of JStr _ \<Rightarrow> True | JObj _ \<Rightarrow> True | _ \<Rightarrow> False"
      by (auto simp: users_document_def list_all_iff)
    with v show "\<exists>v. map_of d k = Some v \<and>
          (case v of JStr _ \<Rightarrow> True | JObj _ \<Rightarrow> True | _ \<Rightarrow> False)" by blast
  qed
  from load_users_loop_succeeds [OF this]
  obtain d' where d': "load_users_loop (map fst d) d = Inr d'" by blast
  from assms(3) have "u \<in> set (map fst d)"
    by (metis map_of_eq_None_iff option.distinct(1) set_map)
  from load_users_loop_upgrades [OF assms(3) this d']
  have rec: "map_of d' u =
             Some (JObj [(''password'', JStr pw), (''profile_pic'', JNull),
                         (''role'', JStr ''user''), (''bio'', JStr ''''),
                         (''favorite_destination'', JStr ''''), (''goals'', JStr '''')])" .
  have "load_users fs = Inr (JObj d')"
    by (simp add: load_users_def assms(1) d')
  with rec show ?thesis by (auto simp: dict_get_def)
qed

theorem load_users_upgrades_legacy_password_witness:
  "load_users \<lparr>USERS_FILE = Some (Inr (JObj [(''bob'', JObj [(''password'', JStr ''$2b$hash'')]),
                                              (''alice'', JStr ''secret'')])),
               TRIPS_FILE = None\<rparr>
     = Inr (JObj [(''bob'', JObj [(''password'', JStr ''$2b$hash''), (''role'', JStr ''user''),
                                  (''profile_pic'', JNull), (''bio'', JStr ''''),
                                  (''favorite_destination'', JStr ''''), (''goals'', JStr '''')]),
                  (''alice'', JObj [(''password'', JStr ''secret''), (''profile_pic'', JNull),
                                    (''role'', JStr ''user''), (''bio'', JStr ''''),
                                    (''favorite_destination'', JStr ''''), (''goals'', JStr '''')])])
   \<and> users_document [(''bob'', JObj [(''password'', JStr ''$2b$hash'')]), (''alice'', JStr ''secret'')]"
proof -
  let ?d = "[(''bob'', JObj [(''password'', JStr ''$2b$hash'')]), (''alice'', JStr ''secret'')]"
  let ?fs = "\<lparr>USERS_FILE = Some (Inr (JObj ?d)), TRIPS_FILE = None\<rparr>"
  have a: "USERS_FILE ?fs = Some (Inr (JObj ?d))" by simp
  have b: "users_document ?d" by (simp add: users_document_def)
  have c: "map_of ?d ''alice'' = Some (JStr ''secret'')" by simp
  have e: "load_users ?fs = Inr (JObj [(''bob'', JObj [(''password'', JStr ''$2b$hash''), (''role'', JStr ''user''),
                                  (''profile_pic'', JNull), (''bio'', JStr ''''),
                                  (''favorite_destination'', JStr ''''), (''goals'', JStr '''')]),
                  (''alice'', JObj [(''password'', JStr ''secret''), (''profile_pic'', JNull),
                                    (''role'', JStr ''user''), (''bio'', JStr ''''),
                                    (''favorite_destination'', JStr ''''), (''goals'', JStr '''')])])"
    by (simp add: load_users_def upgrade_user_def setdefault_def)
  from load_users_upgrades_legacy_password [OF a b c] b e show ?thesis by blast
qed

text \<open>
  Claim C6, as the code has it. \<^verbatim>\<open>load_users\<close> and \<^verbatim>\<open>load_trips\<close> return the empty mapping when
  the file is absent or when parsing it fails with \<^verbatim>\<open>JSONDecodeError\<close>. That is the only
  exception the loaders catch: any other exception of \<^verbatim>\<open>json.load\<close> and the
  \<^verbatim>\<open>AttributeError\<close> of a parsed value that is not a dict reach the caller.
\<close>

theorem load_swallows_only_json_decode_error:
  "(USERS_FILE fs = Some (Inl JSONDecodeError) \<longrightarrow> load_users fs = Inr (JObj []))
   \<and> (TRIPS_FILE fs = Some (Inl JSONDecodeError) \<longrightarrow> load_trips fs = Inr (JObj []))
   \<and> (USERS_FILE fs = None \<longrightarrow> load_users fs = Inr (JObj []))
   \<and> (TRIPS_FILE fs = None \<longrightarrow> load_trips fs = Inr (JObj []))
   \<and> (\<forall>e. e \<noteq> JSONDecodeError \<and> USERS_FILE fs = Some (Inl e) \<longrightarrow> load_users fs = Inl e)
   \<and> (\<forall>e. e \<noteq> JSONDecodeError \<and> TRIPS_FILE fs = Some (Inl e) \<longrightarrow> load_trips fs = Inl e)
   \<and> (\<forall>v. USERS_FILE fs = Some (Inr v) \<and> (\<forall>d. v \<noteq> JObj d) \<longrightarrow> load_users fs = Inl AttributeError)
   \<and> (\<forall>v. TRIPS_FILE fs = Some (Inr v) \<and> (\<forall>d. v \<noteq> JObj d) \<longrightarrow> load_trips fs = Inl AttributeError)"
proof -
  have u: "load_users fs = Inl AttributeError" if "USERS_FILE fs = Some (Inr v)" "\<forall>d. v \<noteq> JObj d" for v
    using that by (cases v) (simp_all add: load_users_def)
  have t: "load_trips fs = Inl AttributeError" if "TRIPS_FILE fs = Some (Inr v)" "\<forall>d. v \<noteq> JObj d" for v
    using that by (cases v) (simp_all add: load_trips_def)
  show ?thesis
    using u t by (auto simp: load_users_def load_trips_def)
qed

theorem load_swallows_only_json_decode_error_witness:
  "load_users \<lparr>USERS_FILE = Some (Inl JSONDecodeError), TRIPS_FILE = Some (Inl JSONDecodeError)\<rparr>
     = Inr (JObj [])
   \<and> load_trips \<lparr>USERS_FILE = Some (Inl JSONDecodeError), TRIPS_FILE = Some (Inl JSONDecodeError)\<rparr>
     = Inr (JObj [])"
  using load_swallows_only_json_decode_error
    [of "\<lparr>USERS_FILE = Some (Inl JSONDecodeError), TRIPS_FILE = Some (Inl JSONDecodeError)\<rparr>"]
  by simp

text \<open>
  Claim C6 as stated (an empty mapping and no exception for every file content) fails: a
  file holding the JSON text \<^verbatim>\<open>[]\<close> makes both loaders raise \<^verbatim>\<open>AttributeError\<close>, and a file
  whose bytes do not decode makes them raise \<^verbatim>\<open>UnicodeDecodeError\<close>.
\<close>

theorem load_raises_counterexample:
  "load_users \<lparr>USERS_FILE = Some (Inr (JArr [])), TRIPS_FILE = Some (Inr (JArr []))\<rparr>
     = Inl AttributeError
   \<and> load_trips \<lparr>USERS_FILE = Some (Inr (JArr [])), TRIPS_FILE = Some (Inr (JArr []))\<rparr>
     = Inl AttributeError
   \<and> load_users \<lparr>USERS_FILE = Some (Inl UnicodeDecodeError), TRIPS_FILE = Some (Inl UnicodeDecodeError)\<rparr>
     = Inl UnicodeDecodeError
   \<and> load_trips \<lparr>USERS_FILE = Some (Inl UnicodeDecodeError), TRIPS_FILE = Some (Inl UnicodeDecodeError)\<rparr>
     = Inl UnicodeDecodeError"
  by (simp add: load_users_def load_trips_def)

subsection \<open>Properties of the reminders\<close>

lemma upcoming_reminders_Nil: "upcoming_reminders today [] = []"
  by (simp add: upcoming_reminders_def)

lemma upcoming_reminders_Cons_dict:
  "upcoming_reminders today (JObj r # ts) =
      (case parse_date_str (dict_get r ''start_date'' (JStr [])) of
         None \<Rightarrow> []
       | Some d \<Rightarrow>
           if 0 \<le> toordinal d - toordinal today \<and> toordinal d - toordinal today \<le> 3
           then [\<lparr>destination = dict_get r ''destination'' (JStr ''(unknown)''),
                  days_left = toordinal d - toordinal today\<rparr>]
           else []) @ upcoming_reminders today ts"
  by (simp add: upcoming_reminders_def days_until_start_def split: option.splits)

lemma upcoming_reminders_Cons_other:
  "\<forall>r. t \<noteq> JObj r \<Longrightarrow> upcoming_reminders today (t # ts) = upcoming_reminders today ts"
  by (cases t) (simp_all add: upcoming_reminders_def days_until_start_def)

lemma reminders_loop_upcoming:
  "\<forall>t \<in> set ts. \<exists>r. t = JObj r \<Longrightarrow>
     reminders_loop today ts toasts = Inr (toasts @ upcoming_reminders today ts)"
proof (induction ts arbitrary: toasts)
  case Nil
  show ?case by (simp add: upcoming_reminders_Nil)
next
  case (Cons t ts)
  from Cons.prems obtain r where t: "t = JObj r" by auto
  from Cons.prems have rest: "\<forall>t \<in> set ts. \<exists>r. t = JObj r" by simp
  show ?case
    unfolding t
    by (simp add: upcoming_reminders_Cons_dict Cons.IH [OF rest] Let_def split: option.splits)
qed

lemma upcoming_reminders_member:
  "\<lparr>destination = dst, days_left = n\<rparr> \<in> set (upcoming_reminders today ts) \<longleftrightarrow>
     (\<exists>r d. JObj r \<in> set ts \<and>
        parse_date_str (dict_get r ''start_date'' (JStr [])) = Some d \<and>
        n = toordinal d - toordinal today \<and> 0 \<le> n \<and> n \<le> 3 \<and>
        dst = dict_get r ''destination'' (JStr ''(unknown)''))"
proof (induction ts)
  case Nil
  show ?case by (simp add: upcoming_reminders_Nil)
next
  case (Cons t ts)
  show ?case
  proof (cases "\<exists>r. t = JObj r")
    case True
    then obtain r where t: "t = JObj r" by blast
    show ?thesis
    proof (cases "parse_date_str (dict_get r ''start_date'' (JStr []))")
      case None
      then show ?thesis
        unfolding t by (auto simp: upcoming_reminders_Cons_dict Cons.IH)
    next
      case (Some d)
      then show ?thesis
        unfolding t by (auto simp: upcoming_reminders_Cons_dict Cons.IH)
    qed
  next
    case False
    then have "\<forall>r. t \<noteq> JObj r" by blast
    from upcoming_reminders_Cons_other [OF this] False show ?thesis
      by (auto simp: Cons.IH)
  qed
qed

lemma reminders_example:
  "trigger_reminders \<lparr>year = 2025, month = 6, day = 1\<rparr> ''alice''
     [(''alice'', JArr [JObj [(''destination'', JStr ''Rome''), (''start_date'', JStr ''2025-06-03'')],
                       JObj [(''destination'', JStr ''Oslo''), (''start_date'', JStr ''2025-06-10'')]])]
   = Inr [\<lparr>destination = JStr ''Rome'', days_left = 2\<rparr>]"
  by code_simp

text \<open>
  Claim C9. When the user's entry is a list of trip records, \<^verbatim>\<open>trigger_reminders\<close> raises the
  toasts of \<^verbatim>\<open>upcoming_reminders\<close>, in trip order: one for exactly each trip whose start date
  parses and lies 0 to 3 days after today, carrying that number of days; a trip whose start
  date does not parse is skipped. With today 2025-06-01, a trip starting 2025-06-03 is
  reported with 2 days left and a trip starting 2025-06-10 is not reported.
\<close>

theorem trigger_reminders_selects_upcoming:
  "(dict_get trips_dict username (JArr []) = JArr ts \<and> (\<forall>t \<in> set ts. \<exists>r. t = JObj r) \<longrightarrow>
      trigger_reminders today username trips_dict = Inr (upcoming_reminders today ts))
   \<and> (\<lparr>destination = dst, days_left = n\<rparr> \<in> set (upcoming_reminders today ts) \<longleftrightarrow>
        (\<exists>r d. JObj r \<in> set ts \<and>
           parse_date_str (dict_get r ''start_date'' (JStr '''')) = Some d \<and>
           n = toordinal d - toordinal today \<and> 0 \<le> n \<and> n \<le> 3 \<and>
           dst = dict_get r ''destination'' (JStr ''(unknown)'')))
   \<and> trigger_reminders \<lparr>year = 2025, month = 6, day = 1\<rparr> ''alice''
        [(''alice'',
          JArr [JObj [(''destination'', JStr ''Rome''), (''start_date'', JStr ''2025-06-03'')],
                JObj [(''destination'', JStr ''Oslo''), (''start_date'', JStr ''2025-06-10'')]])]
      = Inr [\<lparr>destination = JStr ''Rome'', days_left = 2\<rparr>]"
proof (intro conjI impI)
  assume a: "dict_get trips_dict username (JArr []) = JArr ts \<and> (\<forall>t \<in> set ts. \<exists>r. t = JObj r)"
  then show "trigger_reminders today username trips_dict = Inr (upcoming_reminders today ts)"
    by (simp add: trigger_reminders_def reminders_loop_upcoming)
next
  show "\<lparr>destination = dst, days_left = n\<rparr> \<in> set (upcoming_reminders today ts) \<longleftrightarrow>
        (\<exists>r d. JObj r \<in> set ts \<and>
           parse_date_str (dict_get r ''start_date'' (JStr '''')) = Some d \<and>
           n = toordinal d - toordinal today \<and> 0 \<le> n \<and> n \<le> 3 \<and>
           dst = dict_get r ''destination'' (JStr ''(unknown)''))"
    by (rule upcoming_reminders_member)
next
  show "trigger_reminders \<lparr>year = 2025, month = 6, day = 1\<rparr> ''alice''
        [(''alice'',
          JArr [JObj [(''destination'', JStr ''Rome''), (''start_date'', JStr ''2025-06-03'')],
                JObj [(''destination'', JStr ''Oslo''), (''start_date'', JStr ''2025-06-10'')]])]
      = Inr [\<lparr>destination = JStr ''Rome'', days_left = 2\<rparr>]"
    by (rule reminders_example)
qed

theorem trigger_reminders_selects_upcoming_witness:
  "trigger_reminders \<lparr>year = 2024, month = 2, day = 27\<rparr> ''bob''
     [(''bob'', JArr [JObj [(''destination'', JStr ''Lima''), (''start_date'', JStr ''soon'')],
                     JObj [(''destination'', JStr ''Bonn''), (''start_date'', JStr ''2024-03-01'')],
                     JObj [(''start_date'', JStr ''2024-02-27'')],
                     JObj [(''destination'', JStr ''Kiev''), (''start_date'', JStr ''2024-03-02'')],
                     JObj [(''destination'', JStr ''Nice''), (''start_date'', JStr ''2024-02-26'')]])]
   = Inr (upcoming_reminders \<lparr>year = 2024, month = 2, day = 27\<rparr>
           [JObj [(''destination'', JStr ''Lima''), (''start_date'', JStr ''soon'')],
            JObj [(''destination'', JStr ''Bonn''), (''start_date'', JStr ''2024-03-01'')],
            JObj [(''start_date'', JStr ''2024-02-27'')],
            JObj [(''destination'', JStr ''Kiev''), (''start_date'', JStr ''2024-03-02'')],
            JObj [(''destination'', JStr ''Nice''), (''start_date'', JStr ''2024-02-26'')]])
   \<and> upcoming_reminders \<lparr>year = 2024, month = 2, day = 27\<rparr>
           [JObj [(''destination'', JStr ''Lima''), (''start_date'', JStr ''soon'')],
            JObj [(''destination'', JStr ''Bonn''), (''start_date'', JStr ''2024-03-01'')],
            JObj [(''start_date'', JStr ''2024-02-27'')],
            JObj [(''destination'', JStr ''Kiev''), (''start_date'', JStr ''2024-03-02'')],
            JObj [(''destination'', JStr ''Nice''), (''start_date'', JStr ''2024-02-26'')]]
     = [\<lparr>destination = JStr ''Bonn'', days_left = 3\<rparr>,
        \<lparr>destination = JStr ''(unknown)'', days_left = 0\<rparr>]"
proof -
  let ?ts = "[JObj [(''destination'', JStr ''Lima''), (''start_date'', JStr ''soon'')],
            JObj [(''destination'', JStr ''Bonn''), (''start_date'', JStr ''2024-03-01'')],
            JObj [(''start_date'', JStr ''2024-02-27'')],
            JObj [(''destination'', JStr ''Kiev''), (''start_date'', JStr ''2024-03-02'')],
            JObj [(''destination'', JStr ''Nice''), (''start_date'', JStr ''2024-02-26'')]]"
  have a: "dict_get [(''bob'', JArr ?ts)] ''bob'' (JArr []) = JArr ?ts"
    by (simp add: dict_get_def)
  have b: "\<forall>t \<in> set ?ts. \<exists>r. t = JObj r" by simp
  have c: "upcoming_reminders \<lparr>year = 2024, month = 2, day = 27\<rparr> ?ts
     = [\<lparr>destination = JStr ''Bonn'', days_left = 3\<rparr>,
        \<lparr>destination = JStr ''(unknown)'', days_left = 0\<rparr>]"
    by code_simp
  from trigger_reminders_selects_upcoming
    [of "[(''bob'', JArr ?ts)]" "''bob''" ?ts "\<lparr>year = 2024, month = 2, day = 27\<rparr>"] a b
  have "trigger_reminders \<lparr>year = 2024, month = 2, day = 27\<rparr> ''bob'' [(''bob'', JArr ?ts)]
     = Inr (upcoming_reminders \<lparr>year = 2024, month = 2, day = 27\<rparr> ?ts)"
    by blast
  with c show ?thesis by simp
qed

subsection \<open>Properties of the expense total\<close>










subsection \<open>Properties of the login handler\<close>

text \<open>
  Claim C5, as the code has it. The login handler reports invalid credentials when the user
  name is unknown and when verification of the stored value returns false. It has no handler
  for an exception of the verification: when \<^verbatim>\<open>checkpw\<close> raises on the stored value, as it does
  on a string that is not a hash, the exception leaves the login handler.
\<close>

theorem login_invalid_credentials:
  "(map_of users username = None \<longrightarrow>
      login_button checkpw today users trips username password = Inr Invalid_credentials)
   \<and> (map_of users username = Some (JObj r) \<and> map_of r ''password'' = Some (JStr h) \<and>
        checkpw password h = Inr False \<longrightarrow>
      login_button checkpw today users trips username password = Inr Invalid_credentials)
   \<and> (map_of users username = Some (JObj r) \<and> map_of r ''password'' = Some (JStr h) \<and>
        checkpw password h = Inl e \<longrightarrow>
      login_button checkpw today users trips username password = Inl e)"
  by (simp add: login_button_def check_password_def)

theorem login_invalid_credentials_witness:
  "login_button (\<lambda>p h. Inr (h = ''$hash-of-'' @ p)) \<lparr>year = 2025, month = 6, day = 1\<rparr>
     [(''alice'', JObj [(''password'', JStr ''$hash-of-secret''), (''role'', JStr ''user'')])] []
     ''alice'' ''guess''
   = Inr Invalid_credentials
   \<and> login_button (\<lambda>p h. Inr (h = ''$hash-of-'' @ p)) \<lparr>year = 2025, month = 6, day = 1\<rparr>
     [(''alice'', JObj [(''password'', JStr ''$hash-of-secret''), (''role'', JStr ''user'')])] []
     ''bob'' ''guess''
   = Inr Invalid_credentials
   \<and> login_button (\<lambda>p h. if take 1 h = ''$'' then Inr (h = ''$hash-of-'' @ p) else Inl ValueError)
     \<lparr>year = 2025, month = 6, day = 1\<rparr>
     [(''alice'', JObj [(''password'', JStr ''secret''), (''role'', JStr ''user'')])] []
     ''alice'' ''secret''
   = Inl ValueError"
proof -
  let ?v = "\<lambda>p h. Inr (h = ''$hash-of-'' @ p) :: exn + bool"
  let ?w = "\<lambda>p h. if take 1 h = ''$'' then Inr (h = ''$hash-of-'' @ p) else Inl ValueError :: exn + bool"
  let ?today = "\<lparr>year = 2025, month = 6, day = 1\<rparr>"
  let ?r = "[(''password'', JStr ''$hash-of-secret''), (''role'', JStr ''user'')]"
  let ?r' = "[(''password'', JStr ''secret''), (''role'', JStr ''user'')]"
  have a: "login_button ?v ?today [(''alice'', JObj ?r)] [] ''alice'' ''guess'' = Inr Invalid_credentials"
    using login_invalid_credentials
      [of "[(''alice'', JObj ?r)]" "''alice''" ?v ?today "[]" "''guess''" ?r "''$hash-of-secret''"]
    by simp
  have b: "login_button ?v ?today [(''alice'', JObj ?r)] [] ''bob'' ''guess'' = Inr Invalid_credentials"
    using login_invalid_credentials
      [of "[(''alice'', JObj ?r)]" "''bob''" ?v ?today "[]" "''guess''"]
    by simp
  have c: "login_button ?w ?today [(''alice'', JObj ?r')] [] ''alice'' ''secret'' = Inl ValueError"
    using login_invalid_credentials
      [of "[(''alice'', JObj ?r')]" "''alice''" ?w ?today "[]" "''secret''" ?r' "''secret''" ValueError]
    by simp
  from a b c show ?thesis by simp
qed

text \<open>
  Claim C5 as stated expects the message for invalid credentials when verification raises.
  For a user whose stored password is the legacy plain text \<^verbatim>\<open>secret\<close> and a verification that
  raises \<^verbatim>\<open>ValueError\<close>, the handler ends with that exception instead.
\<close>

theorem login_verification_exception_counterexample:
  "login_button (\<lambda>password hashed. Inl ValueError) \<lparr>year = 2025, month = 6, day = 1\<rparr>
     [(''alice'', JObj [(''password'', JStr ''secret''), (''profile_pic'', JNull),
                        (''role'', JStr ''user''), (''bio'', JStr []),
                        (''favorite_destination'', JStr []), (''goals'', JStr [])])]
     [] ''alice'' ''secret''
   = Inl ValueError
   \<and> login_button (\<lambda>password hashed. Inl ValueError) \<lparr>year = 2025, month = 6, day = 1\<rparr>
     [(''alice'', JObj [(''password'', JStr ''secret''), (''profile_pic'', JNull),
                        (''role'', JStr ''user''), (''bio'', JStr []),
                        (''favorite_destination'', JStr []), (''goals'', JStr [])])]
     [] ''alice'' ''secret''
   \<noteq> Inr Invalid_credentials"
  by (simp add: login_button_def check_password_def)

end
